theory Spec2Isabelle
  imports Main "HOL-Library.Sublist" "HOL-Library.Multiset" "HOL-Library.List_Lexorder"
    "HOL-Library.Char_ord"
begin

section \<open>Strings as the code uses them\<close>

text \<open>
  A JavaScript string is a sequence of UTF-16 code units. The model has the strings
  whose code units lie below U+0100 (ASCII and the Latin-1 supplement, which holds the
  Norwegian letters), one \<^typ>\<open>char\<close> for each code unit with the code unit as its
  code. On these \<open>toLocaleLowerCase\<close> maps \<open>A\<close>..\<open>Z\<close> (U+0041..U+005A) and the
  capital letters U+00C0..U+00DE, the multiplication sign U+00D7 excepted, to the code
  unit 32 above, and keeps every other code unit; the Turkic and the Lithuanian
  locales, which treat \<open>I\<close> and \<open>J\<close> in their own way, are left aside.
\<close>

definition lower_char :: "char \<Rightarrow> char" where
  "lower_char c =
     (let n = (of_char c :: nat)
      in if (65 \<le> n \<and> n \<le> 90) \<or> (192 \<le> n \<and> n \<le> 222 \<and> n \<noteq> 215)
         then char_of (n + 32) else c)"

definition toLocaleLowerCase :: "string \<Rightarrow> string" where
  "toLocaleLowerCase s = map lower_char s"

text \<open>\<open>s.includes(t)\<close>: \<open>t\<close> occurs in \<open>s\<close> as a contiguous run of characters.\<close>

fun includes_str :: "string \<Rightarrow> string \<Rightarrow> bool" where
  "includes_str [] t = (t = [])"
| "includes_str (c # s) t = (prefix t (c # s) \<or> includes_str s t)"

section \<open>Data model (the API's JSON shapes)\<close>

text \<open>
  \<open>UserSchema\<close> and \<open>GroupUserSchema = UserSchema.extend(...)\<close>. The list of
  punishments of a group user is read by none of the code modelled here and is left out.
\<close>

record User =
  ow_user_id :: int
  user_id :: string
  first_name :: string
  last_name :: string
  email :: string

record GroupUser = User +
  group_id :: string
  ow_group_user_id :: "int option"
  active :: bool
  permissions :: "string list"

record PunishmentType =
  name :: string
  "value" :: int
  emoji :: string
  punishment_type_id :: string

datatype js_error = TypeError | SyntaxError

section \<open>The Svelte stores\<close>

text \<open>
  The writable stores of the store module. \<open>users\<close> starts as whatever
  \<open>JSON.parse(localStorage.getItem("users"))\<close> gives, which is \<open>null\<close> when the key is
  absent (\<open>None\<close> here); \<open>showInactive\<close>, \<open>showPaid\<close> and \<open>filterOnPunishments\<close> are
  created without an initial value and hold \<open>undefined\<close> (\<open>None\<close>) until set.
\<close>

record Stores =
  term_store :: string
  users :: "GroupUser list option"
  showInactive :: "bool option"
  showPaid :: "bool option"
  filterOnPunishments :: "PunishmentType list option"

text \<open>Truthiness of a boolean store that may still be \<open>undefined\<close>.\<close>

definition truthy :: "bool option \<Rightarrow> bool" where
  "truthy b = (case b of None \<Rightarrow> False | Some v \<Rightarrow> v)"

text \<open>
  The derived store: two successive \<open>filter\<close> calls on \<open>$users\<close>. Calling \<open>.filter\<close> on
  \<open>null\<close> throws a \<open>TypeError\<close>. The first predicate is
  \<open>$showInactive ? user : user.active\<close> (an object is truthy), the second lower-cases the
  two names and looks for \<open>$term\<close> as it is.
\<close>

definition filteredUsers :: "Stores \<Rightarrow> js_error + GroupUser list" where
  "filteredUsers s =
     (case users s of
        None \<Rightarrow> Inl TypeError
      | Some us \<Rightarrow>
          Inr (filter
                 (\<lambda>user. includes_str (toLocaleLowerCase (first_name user)) (term_store s)
                        \<or> includes_str (toLocaleLowerCase (last_name user)) (term_store s))
                 (filter (\<lambda>user. if truthy (showInactive s) then True else active user) us)))"

text \<open>
  The filter as the specification words it: a user is kept when it is active or
  \<open>showInactive\<close> is set, and the term occurs in the first or the last name without
  regard to case (both sides lower-cased).
\<close>

definition contains_ci :: "string \<Rightarrow> string \<Rightarrow> bool" where
  "contains_ci s t = includes_str (toLocaleLowerCase s) (toLocaleLowerCase t)"

definition filteredUsers_spec :: "string \<Rightarrow> GroupUser list \<Rightarrow> bool \<Rightarrow> GroupUser list" where
  "filteredUsers_spec t us si =
     filter (\<lambda>user. (active user \<or> si)
                  \<and> (contains_ci (first_name user) t \<or> contains_ci (last_name user) t)) us"

section \<open>The group and its members\<close>

text \<open>
  \<open>GroupSchema\<close>: the group with its members, its roles (pairs of a role's name and
  the permission string that stands for it) and its permission table (a record from a
  role's permission string to a list of permissions), kept as association lists.
\<close>

type_synonym GroupRole = "string \<times> string"
type_synonym GroupPermissions = "(string \<times> string list) list"

record Group =
  name :: string
  name_short :: string
  rules :: string
  image :: string
  ow_group_id :: "int option"
  group_id :: string
  punishment_types :: "(string \<times> PunishmentType) list"
  members :: "GroupUser list"
  join_requests :: "User list"
  roles :: "GroupRole list"
  permissions :: GroupPermissions

section \<open>Helpers that the modal imports\<close>

text \<open>
  \<open>hasPermission\<close> and \<open>canGiveRole\<close> come from the permission helper module, and
  \<open>localeCompare\<close> is the collation of the user's locale; none of them is defined in
  the sources at hand, so the model takes them as parameters.
\<close>

record Helpers =
  hasPermission :: "GroupPermissions \<Rightarrow> string \<Rightarrow> string \<Rightarrow> bool"
  canGiveRole :: "GroupRole list \<Rightarrow> GroupPermissions \<Rightarrow> string \<Rightarrow> string \<Rightarrow> bool"
  localeCompare :: "string \<Rightarrow> string \<Rightarrow> int"

text \<open>
  A comparison function is consistent when the signs of \<open>cmp a b\<close> and \<open>cmp b a\<close> are
  opposite and "not greater" is transitive; every collation is.
\<close>

definition consistent_comparator :: "('a \<Rightarrow> 'a \<Rightarrow> int) \<Rightarrow> bool" where
  "consistent_comparator cmp \<longleftrightarrow>
     (\<forall>a b. (cmp a b < 0) = (0 < cmp b a)) \<and>
     (\<forall>a b c. cmp a b \<le> 0 \<longrightarrow> cmp b c \<le> 0 \<longrightarrow> cmp a c \<le> 0)"

text \<open>
  \<open>Array.prototype.sort\<close> with a comparison function is a stable sort: an element is
  placed before the first element it is not greater than, so elements that compare
  equal keep their order. For a consistent comparison function this result is the only
  one a stable sort can give.
\<close>

fun insert_sorted :: "('a \<Rightarrow> 'a \<Rightarrow> int) \<Rightarrow> 'a \<Rightarrow> 'a list \<Rightarrow> 'a list" where
  "insert_sorted cmp x [] = [x]"
| "insert_sorted cmp x (y # ys) =
     (if cmp x y \<le> 0 then x # y # ys else y # insert_sorted cmp x ys)"

definition array_sort :: "('a \<Rightarrow> 'a \<Rightarrow> int) \<Rightarrow> 'a list \<Rightarrow> 'a list" where
  "array_sort cmp xs = foldr (insert_sorted cmp) xs []"

text \<open>\<open>xs.at(0) ?? ""\<close> on a list of strings.\<close>

definition at0 :: "string list \<Rightarrow> string" where
  "at0 xs = (case xs of [] \<Rightarrow> [] | x # _ \<Rightarrow> x)"

text \<open>
  The two letters outside ASCII that the labels use: the small o with stroke (U+00F8)
  and the small a with ring (U+00E5).
\<close>

definition o_slash :: string where
  "o_slash = [char_of (248 :: nat)]"

definition a_ring :: string where
  "a_ring = [char_of (229 :: nat)]"

section \<open>State of the edit-members modal\<close>

text \<open>
  The URL builders of the API helper module are not among the sources; a URL is kept as
  the builder applied to its two arguments (group id and user id).
\<close>

datatype url =
    TransferGroupOwnershipUrl string string
  | DeleteGroupMemberUrl string string
  | PatchGroupMemberPermissionsUrl string string

datatype request =
    Post url
  | Delete url
  | Patch url "(string \<times> string) list"

text \<open>The query key \<open>["groupLeaderboard", selectedGroup?.group_id]\<close>.\<close>

datatype query_key = QueryKey string "string option"

record Notification =
  n_type :: string
  n_title :: "string option"
  n_text :: string

text \<open>
  \<open>VengefulApiError\<close>, the type the error handlers declare for their argument: a
  response whose data carries the backend's \<open>detail\<close> string.
\<close>

record ErrorData =
  detail :: string

record ErrorResponse =
  data :: ErrorData

record VengefulApiError =
  response :: ErrorResponse

datatype outcome = Resolved | Rejected VengefulApiError

datatype mutation = TransferOwnership | RemoveMember | ChangeRole

datatype click_action = ChangeRoleClick | TransferOwnershipClick | RemoveMemberClick

text \<open>
  The options handed to the confirm modal. Each \<open>onClose\<close> callback of the source has
  the shape \<open>(retval) => { if (retval) { m() } }\<close> for one of the three mutations
  \<open>m\<close>; the field keeps which one.
\<close>

record ConfirmModalOptions =
  message :: "string option"
  primaryButtonLabel :: "string option"
  cancelButtonLabel :: "string option"
  inputKeyword :: "string option"
  onClose :: mutation

record ListboxOption =
  label :: string
  "value" :: string
  disabled :: bool

text \<open>
  The component's state (\<open>useState\<close>), what it reads from its contexts, the query data,
  and two logs of its effects on the outside: the queries it invalidated and the HTTP
  requests it issued. React keeps, for each \<open>useEffect\<close>, the dependencies it last ran
  with; \<open>depsSelectedPerson\<close> and \<open>depsGroupData\<close> hold them for the two effects of
  the component (\<open>currentUser\<close>, the other dependency of the second, does not change
  while the modal is mounted).
\<close>

record ModalState =
  selectedGroup :: "Group option"
  currentUser :: User
  members :: "GroupUser list"
  selectedPerson :: "GroupUser option"
  currentRole :: string
  currentRolesOptions :: "ListboxOption list"
  currentUserRole :: string
  groupData :: "Group option"
  confirmModalOpen :: bool
  confirmModalType :: string
  confirmModalOptions :: "ConfirmModalOptions option"
  notification :: "Notification option"
  invalidated :: "query_key list"
  requests :: "request list"
  depsSelectedPerson :: "GroupUser option"
  depsGroupData :: "Group option"

text \<open>\<open>selectedPerson?.user_id === currentUser.user_id\<close>\<close>

definition isCurrentUserSelected :: "ModalState \<Rightarrow> bool" where
  "isCurrentUserSelected st =
     (case selectedPerson st of
        None \<Rightarrow> False
      | Some p \<Rightarrow> user_id p = user_id (currentUser st))"

section \<open>The leaderboard query's callback and the two effects\<close>

definition fullName :: "GroupUser \<Rightarrow> string" where
  "fullName a = first_name a @ '' '' @ last_name a"

definition compareMembers :: "Helpers \<Rightarrow> GroupUser \<Rightarrow> GroupUser \<Rightarrow> int" where
  "compareMembers h a b = localeCompare h (fullName a) (fullName b)"

text \<open>
  The callback given to \<open>useGroupLeaderboard\<close>. \<open>newMembers\<close> is a fresh array with the
  elements of \<open>group.members\<close>; it is the fresh array that is sorted in place. The
  function returns the group object as the callback leaves it, next to the new state.
\<close>

definition onGroupLeaderboardSuccess ::
  "Helpers \<Rightarrow> Group \<Rightarrow> ModalState \<Rightarrow> Group \<times> ModalState" where
  "onGroupLeaderboardSuccess h grp st =
     (let newMembers = Group.members grp;
          newMembers = array_sort (compareMembers h) newMembers;
          newSelectedPerson =
            find (\<lambda>member. Some (user_id member) = map_option user_id (selectedPerson st))
              newMembers
      in (grp,
          st\<lparr>members := newMembers,
             selectedPerson :=
               (case newSelectedPerson of
                  Some p \<Rightarrow> Some p
                | None \<Rightarrow> (case newMembers of [] \<Rightarrow> None | m # _ \<Rightarrow> Some m))\<rparr>))"

text \<open>
  The effect on \<open>[selectedPerson]\<close>: the role shown for the selected person and the
  role options, each disabled or not.
\<close>

definition effect_selectedPerson :: "Helpers \<Rightarrow> ModalState \<Rightarrow> ModalState" where
  "effect_selectedPerson h st =
     (case selectedPerson st of
        None \<Rightarrow> st
      | Some sp \<Rightarrow>
          (let role = at0 (GroupUser.permissions sp);
               groupRoles = (case groupData st of None \<Rightarrow> [] | Some gd \<Rightarrow> roles gd);
               groupPermissions =
                 (case groupData st of None \<Rightarrow> [] | Some gd \<Rightarrow> Group.permissions gd);
               isCurrentUser = (user_id sp = user_id (currentUser st));
               newRolesOptions =
                 map (\<lambda>(roleName, rolePermission).
                        (let canGiveRoleCheck =
                               canGiveRole h groupRoles groupPermissions rolePermission
                                 (currentUserRole st)
                         in \<lparr>label = roleName, value = rolePermission,
                             disabled =
                               ((isCurrentUser
                                   \<and> (currentUserRole st = ''group.owner'' \<or> \<not> canGiveRoleCheck))
                                \<or> (\<not> isCurrentUser \<and> \<not> canGiveRoleCheck))\<rparr>))
                     groupRoles
           in st\<lparr>currentRole := role, currentRolesOptions := newRolesOptions\<rparr>))"

text \<open>The effect on \<open>[currentUser, groupData]\<close>: the current user's own role.\<close>

definition effect_currentUserRole :: "ModalState \<Rightarrow> ModalState" where
  "effect_currentUserRole st =
     st\<lparr>currentUserRole :=
          (case groupData st of
             None \<Rightarrow> []
           | Some gd \<Rightarrow>
               (case find (\<lambda>member. user_id member = user_id (currentUser st))
                       (Group.members gd) of
                  None \<Rightarrow> []
                | Some member \<Rightarrow> at0 (GroupUser.permissions member)))\<rparr>"

section \<open>The three mutations\<close>

text \<open>The request each mutation function sends, read from the state at that moment.\<close>

definition mutationFn :: "mutation \<Rightarrow> ModalState \<Rightarrow> request" where
  "mutationFn m st =
     (let gid = (case selectedGroup st of None \<Rightarrow> [] | Some g \<Rightarrow> group_id g);
          uid = (case selectedPerson st of None \<Rightarrow> [] | Some p \<Rightarrow> user_id p)
      in case m of
           TransferOwnership \<Rightarrow> Post (TransferGroupOwnershipUrl gid uid)
         | RemoveMember \<Rightarrow> Delete (DeleteGroupMemberUrl gid uid)
         | ChangeRole \<Rightarrow>
             Patch (PatchGroupMemberPermissionsUrl gid uid) [(''privilege'', currentRole st)])"

text \<open>
  Calling \<open>mutate\<close> runs the mutation function once: the options passed to
  \<open>useMutation\<close> configure no retry, and mutations are not retried unless they do.
\<close>

definition mutate :: "mutation \<Rightarrow> ModalState \<Rightarrow> ModalState" where
  "mutate m st = st\<lparr>requests := requests st @ [mutationFn m st]\<rparr>"

definition successText :: "mutation \<Rightarrow> string" where
  "successText m =
     (case m of
        TransferOwnership \<Rightarrow> ''Lederskap ble overf'' @ o_slash @ ''rt''
      | RemoveMember \<Rightarrow> ''Medlem ble fjernet''
      | ChangeRole \<Rightarrow> ''Rolle ble endret'')"

definition errorTitle :: "mutation \<Rightarrow> string" where
  "errorTitle m =
     (case m of
        TransferOwnership \<Rightarrow> ''Lederskap kunne ikke overf'' @ o_slash @ ''res''
      | RemoveMember \<Rightarrow> ''Medlem kunne ikke fjernes''
      | ChangeRole \<Rightarrow> ''Rolle kunne ikke endres'')"

definition onSuccess :: "mutation \<Rightarrow> ModalState \<Rightarrow> ModalState" where
  "onSuccess m st =
     st\<lparr>invalidated :=
          invalidated st
            @ [QueryKey ''groupLeaderboard'' (map_option group_id (selectedGroup st))],
        notification :=
          Some \<lparr>n_type = ''success'', n_title = None, n_text = successText m\<rparr>\<rparr>"

definition onError :: "mutation \<Rightarrow> VengefulApiError \<Rightarrow> ModalState \<Rightarrow> ModalState" where
  "onError m e st =
     st\<lparr>notification :=
          Some \<lparr>n_type = ''error'', n_title = Some (errorTitle m),
                n_text = detail (data (response e))\<rparr>\<rparr>"

text \<open>The request of mutation \<open>m\<close> settles: one of the two handlers runs.\<close>

definition settle :: "mutation \<Rightarrow> outcome \<Rightarrow> ModalState \<Rightarrow> ModalState" where
  "settle m out st =
     (case out of
        Resolved \<Rightarrow> onSuccess m st
      | Rejected e \<Rightarrow> onError m e st)"

section \<open>What the modal renders, and its click handlers\<close>

record Button =
  variant :: string
  label :: string
  color :: string
  onClick :: click_action
  disabled :: bool

datatype Element =
    Spinner
  | PersonSelect "GroupUser list" "GroupUser option"
  | Listbox "ListboxOption list" string
  | ButtonEl Button

text \<open>
  The children of the modal's body: a spinner while there is no query data, else the
  person select, the role listbox, the change-role button and, each behind its
  \<open>hasPermission\<close> test, the transfer-ownership and the remove-member button.
\<close>

definition render :: "Helpers \<Rightarrow> ModalState \<Rightarrow> Element list" where
  "render h st =
     (case groupData st of
        None \<Rightarrow> [Spinner]
      | Some gd \<Rightarrow>
          [PersonSelect (members st) (selectedPerson st),
           Listbox (currentRolesOptions st) (currentRole st),
           ButtonEl \<lparr>variant = ''OUTLINE'', label = ''Endre rolle'', color = ''BLUE'',
                     onClick = ChangeRoleClick,
                     disabled =
                       (find (\<lambda>option. \<not> ListboxOption.disabled option)
                            (currentRolesOptions st) = None
                        \<or> currentRole st =
                            (case selectedPerson st of
                               None \<Rightarrow> []
                             | Some p \<Rightarrow> at0 (GroupUser.permissions p)))\<rparr>]
          @ (if hasPermission h (Group.permissions gd) ''group.ownership.transfer''
                  (currentUserRole st)
             then [ButtonEl \<lparr>variant = ''OUTLINE'',
                             label = ''Overf'' @ o_slash @ ''r lederskap'', color = ''RED'',
                             onClick = TransferOwnershipClick,
                             disabled = isCurrentUserSelected st\<rparr>]
             else [])
          @ (if hasPermission h (Group.permissions gd) ''group.members.remove''
                  (currentUserRole st)
             then [ButtonEl \<lparr>variant = ''OUTLINE'', label = ''Fjern fra gruppa'',
                             color = ''RED'', onClick = RemoveMemberClick,
                             disabled = isCurrentUserSelected st\<rparr>]
             else []))"

text \<open>The buttons among the rendered elements.\<close>

fun buttons :: "Element list \<Rightarrow> Button list" where
  "buttons [] = []"
| "buttons (ButtonEl b # es) = b # buttons es"
| "buttons (e # es) = buttons es"

definition rendered :: "Helpers \<Rightarrow> ModalState \<Rightarrow> click_action \<Rightarrow> bool" where
  "rendered h st a = (find (\<lambda>b. onClick b = a) (buttons (render h st)) \<noteq> None)"

definition clickable :: "Helpers \<Rightarrow> ModalState \<Rightarrow> click_action \<Rightarrow> bool" where
  "clickable h st a =
     (find (\<lambda>b. onClick b = a \<and> \<not> disabled b) (buttons (render h st)) \<noteq> None)"

text \<open>The three \<open>onClick\<close> handlers.\<close>

definition handleClick :: "click_action \<Rightarrow> ModalState \<Rightarrow> ModalState" where
  "handleClick a st =
     (case a of
        ChangeRoleClick \<Rightarrow>
          (if isCurrentUserSelected st
           then st\<lparr>confirmModalType := ''YESNO'',
                   confirmModalOptions :=
                     Some \<lparr>message =
                             Some (''Dersom du bytter rolle p'' @ a_ring
                                   @ '' deg selv vil du ikke selv ville gjenopprette den gamle rollen din''),
                           primaryButtonLabel = None, cancelButtonLabel = None,
                           inputKeyword = None, onClose = ChangeRole\<rparr>,
                   confirmModalOpen := True\<rparr>
           else mutate ChangeRole st)
      | TransferOwnershipClick \<Rightarrow>
          st\<lparr>confirmModalType := ''INPUT'',
             confirmModalOptions :=
               Some \<lparr>message = None,
                     primaryButtonLabel = Some (''Overf'' @ o_slash @ ''r''),
                     cancelButtonLabel = Some ''Avbryt'',
                     inputKeyword = Some (''Overf'' @ o_slash @ ''r''),
                     onClose = TransferOwnership\<rparr>,
             confirmModalOpen := True\<rparr>
      | RemoveMemberClick \<Rightarrow>
          st\<lparr>confirmModalType := ''YESNO'',
             confirmModalOptions :=
               Some \<lparr>message = None, primaryButtonLabel = None, cancelButtonLabel = None,
                     inputKeyword = None, onClose = RemoveMember\<rparr>,
             confirmModalOpen := True\<rparr>)"

text \<open>
  Modelled from the spec: the confirm-modal context (\<open>useConfirmModal\<close>) is not among
  the sources. The specification speaks of confirmation dialogs with a confirm/cancel
  flow: an open dialog resolves with the user's answer, closes, and hands the answer to
  the \<open>onClose\<close> callback it was given, which here calls the mutation when the answer
  is affirmative. A dialog that is not open cannot resolve.
\<close>

definition confirmModalClose :: "bool \<Rightarrow> ModalState \<Rightarrow> ModalState" where
  "confirmModalClose retval st =
     (if \<not> confirmModalOpen st then st
      else case confirmModalOptions st of
             None \<Rightarrow> st\<lparr>confirmModalOpen := False\<rparr>
           | Some opts \<Rightarrow>
               (if retval then mutate (onClose opts) (st\<lparr>confirmModalOpen := False\<rparr>)
                else st\<lparr>confirmModalOpen := False\<rparr>))"

section \<open>The modal as a transition system\<close>

text \<open>
  After a render React runs the effects whose dependencies differ from the ones they
  last ran with, in the order of the source. Both see the state of that render: the
  effect on \<open>[selectedPerson]\<close> still reads the \<open>currentUserRole\<close> that the effect on
  \<open>[currentUser, groupData]\<close> is about to replace. React compares dependencies by
  identity; the model compares their values, as the query library hands back the same
  objects for data that has not changed.
\<close>

definition runEffects :: "Helpers \<Rightarrow> ModalState \<Rightarrow> ModalState" where
  "runEffects h st =
     (let st1 = (if selectedPerson st = depsSelectedPerson st then st
                 else effect_selectedPerson h st);
          st2 = (if groupData st = depsGroupData st then st1
                 else effect_currentUserRole st1)
      in st2\<lparr>depsSelectedPerson := selectedPerson st, depsGroupData := groupData st\<rparr>)"

text \<open>
  What can happen to the mounted modal: the leaderboard query resolves with a group, the
  pending effects run, the user picks a person or a role, clicks a button, answers the
  confirmation dialog, or a request that is under way settles. The query is enabled
  only while a group is selected. When it resolves, its data becomes \<open>groupData\<close> and
  the callback runs; the render that follows shows the new data with the state as the
  effects last left it, and the effects run after it. The person select offers the
  members. A click reaches its handler only when the button is rendered and not
  disabled.

  The component body runs again on every render, so the mutation functions and the
  handlers always close over the current state, and \<open>mutate\<close> runs the mutation
  function of the latest render: a mutation reads \<open>selectedGroup\<close>, \<open>selectedPerson\<close>
  and \<open>currentRole\<close> as they are when it is started, not as they were when a button
  was clicked.
\<close>

datatype event =
    QueryResolved Group
  | EffectsRun
  | SelectPerson GroupUser
  | SetRole string
  | Click click_action
  | ConfirmClose bool
  | MutationSettled mutation outcome

definition step :: "Helpers \<Rightarrow> event \<Rightarrow> ModalState \<Rightarrow> ModalState" where
  "step h ev st =
     (case ev of
        QueryResolved grp \<Rightarrow>
          (if selectedGroup st = None then st
           else snd (onGroupLeaderboardSuccess h grp (st\<lparr>groupData := Some grp\<rparr>)))
      | EffectsRun \<Rightarrow> runEffects h st
      | SelectPerson p \<Rightarrow>
          (if groupData st = None \<or> p \<notin> set (members st) then st
           else st\<lparr>selectedPerson := Some p\<rparr>)
      | SetRole v \<Rightarrow> (if groupData st = None then st else st\<lparr>currentRole := v\<rparr>)
      | Click a \<Rightarrow> (if clickable h st a then handleClick a st else st)
      | ConfirmClose retval \<Rightarrow> confirmModalClose retval st
      | MutationSettled m out \<Rightarrow> settle m out st)"

text \<open>
  The current user's role in the loaded group, in words: the first permission of the
  member entry that carries the current user's id, and the empty string when there is
  no data or no such entry.
\<close>

definition currentUsersRole :: "User \<Rightarrow> Group option \<Rightarrow> string" where
  "currentUsersRole u gd =
     (case gd of
        None \<Rightarrow> []
      | Some g \<Rightarrow>
          (case find (\<lambda>member. user_id member = user_id u) (Group.members g) of
             None \<Rightarrow> []
           | Some member \<Rightarrow> at0 (GroupUser.permissions member)))"

text \<open>
  The modal right after mounting: the initial values of its \<open>useState\<close> calls, no query
  data yet, and the effects of the first render done.
\<close>

definition mounted :: "ModalState \<Rightarrow> bool" where
  "mounted st \<longleftrightarrow>
     members st = [] \<and> selectedPerson st = None \<and> currentRole st = []
     \<and> currentRolesOptions st = [] \<and> currentUserRole st = [] \<and> groupData st = None
     \<and> depsSelectedPerson st = None \<and> depsGroupData st = None"

definition run :: "Helpers \<Rightarrow> event list \<Rightarrow> ModalState \<Rightarrow> ModalState" where
  "run h evs st = fold (step h) evs st"

text \<open>The requests that the two guarded actions send.\<close>

fun guarded_request :: "request \<Rightarrow> bool" where
  "guarded_request (Post (TransferGroupOwnershipUrl g u)) = True"
| "guarded_request (Delete (DeleteGroupMemberUrl g u)) = True"
| "guarded_request r = False"

section \<open>The layout and the bearer token\<close>

record OidcUser =
  access_token :: string

record AuthState =
  activeNavigator :: "string option"
  isLoading :: bool
  error :: "string option"
  isAuthenticated :: bool
  user :: "OidcUser option"

datatype Page = SigningIn | SigningOut | Loading | Failed | Main

text \<open>
  One render of \<open>Layout\<close>, with \<open>axios.defaults.headers.common\<close> passed through. The
  template string renders an absent user's token as \<open>undefined\<close>.
\<close>

definition Layout :: "AuthState \<Rightarrow> (string \<rightharpoonup> string) \<Rightarrow> Page \<times> (string \<rightharpoonup> string)" where
  "Layout auth headers =
     (if activeNavigator auth = Some ''signinSilent'' then (SigningIn, headers)
      else if activeNavigator auth = Some ''signoutRedirect'' then (SigningOut, headers)
      else if isLoading auth then (Loading, headers)
      else if error auth \<noteq> None then (Failed, headers)
      else if isAuthenticated auth
        then (Main,
              headers(''Authorization'' \<mapsto>
                ''Bearer '' @ (case user auth of
                                 None \<Rightarrow> ''undefined''
                               | Some u \<Rightarrow> access_token u)))
      else (Main, headers))"

section \<open>Concrete inputs\<close>

text \<open>
  An instance of the three helpers, for running the model on concrete inputs: a role has
  a permission when the table lists it under the role, every role may be given, and
  strings compare by their characters' codes.
\<close>

definition table_hasPermission :: "GroupPermissions \<Rightarrow> string \<Rightarrow> string \<Rightarrow> bool" where
  "table_hasPermission perms p role =
     (case map_of perms role of None \<Rightarrow> False | Some ps \<Rightarrow> List.member ps p)"

definition code_compare :: "string \<Rightarrow> string \<Rightarrow> int" where
  "code_compare a b = (if a < b then - 1 else if a = b then 0 else 1)"

definition sample_helpers :: Helpers where
  "sample_helpers =
     \<lparr>hasPermission = table_hasPermission,
      canGiveRole = (\<lambda>groupRoles groupPermissions role userRole. True),
      localeCompare = code_compare\<rparr>"

definition anna :: GroupUser where
  "anna = \<lparr>ow_user_id = 1, user_id = ''u1'', first_name = ''Anna'', last_name = ''Berg'',
           email = ''anna@example.org'', GroupUser.group_id = ''g1'',
           ow_group_user_id = None, active = True,
           GroupUser.permissions = [''group.owner'']\<rparr>"

definition anna_demoted :: GroupUser where
  "anna_demoted = anna\<lparr>GroupUser.permissions := [''group.member'']\<rparr>"

definition bob :: GroupUser where
  "bob = \<lparr>ow_user_id = 2, user_id = ''u2'', first_name = ''Bob'', last_name = ''Dahl'',
          email = ''bob@example.org'', GroupUser.group_id = ''g1'',
          ow_group_user_id = None, active = True,
          GroupUser.permissions = [''group.member'']\<rparr>"

definition kari1 :: GroupUser where
  "kari1 = \<lparr>ow_user_id = 3, user_id = ''u3'', first_name = ''Kari'', last_name = ''Lie'',
            email = ''kari@example.org'', GroupUser.group_id = ''g1'',
            ow_group_user_id = None, active = True,
            GroupUser.permissions = [''group.member'']\<rparr>"

definition kari2 :: GroupUser where
  "kari2 = \<lparr>ow_user_id = 4, user_id = ''u4'', first_name = ''Kari'', last_name = ''Lie'',
            email = ''kari.lie@example.org'', GroupUser.group_id = ''g1'',
            ow_group_user_id = None, active = False,
            GroupUser.permissions = [''group.member'']\<rparr>"

definition sample_permissions :: GroupPermissions where
  "sample_permissions =
     [(''group.owner'', [''group.ownership.transfer'', ''group.members.remove'']),
      (''group.member'', [])]"

definition group_with :: "GroupUser list \<Rightarrow> Group" where
  "group_with ms =
     \<lparr>name = ''Vinstraffer'', name_short = ''vin'', rules = '''', image = '''',
      ow_group_id = None, group_id = ''g1'', punishment_types = [],
      members = ms, join_requests = [],
      roles = [(''Leder'', ''group.owner''), (''Medlem'', ''group.member'')],
      permissions = sample_permissions\<rparr>"

text \<open>The modal before the query has answered, with Anna as the current user.\<close>

definition initial_state :: ModalState where
  "initial_state =
     \<lparr>selectedGroup = Some (group_with []),
      currentUser = \<lparr>ow_user_id = 1, user_id = ''u1'', first_name = ''Anna'',
                      last_name = ''Berg'', email = ''anna@example.org''\<rparr>,
      members = [], selectedPerson = None, currentRole = [],
      currentRolesOptions = [], currentUserRole = [], groupData = None,
      confirmModalOpen = False, confirmModalType = [], confirmModalOptions = None,
      notification = None, invalidated = [], requests = [],
      depsSelectedPerson = None, depsGroupData = None\<rparr>"

definition sample_error :: VengefulApiError where
  "sample_error = \<lparr>response = \<lparr>data = \<lparr>detail = ''Not allowed''\<rparr>\<rparr>\<rparr>"

definition sample_stores :: "string \<Rightarrow> PunishmentType list option \<Rightarrow> Stores" where
  "sample_stores t f =
     \<lparr>term_store = t, users = Some [anna, bob], showInactive = Some False,
      showPaid = None, filterOnPunishments = f\<rparr>"

definition vin :: PunishmentType where
  "vin = \<lparr>PunishmentType.name = ''vin'', PunishmentType.value = 1, emoji = ''w'',
          punishment_type_id = ''p1''\<rparr>"

definition loading_auth :: AuthState where
  "loading_auth =
     \<lparr>activeNavigator = None, isLoading = True, error = None, isAuthenticated = True,
      user = Some \<lparr>access_token = ''tok''\<rparr>\<rparr>"

definition signed_in_auth :: AuthState where
  "signed_in_auth =
     \<lparr>activeNavigator = None, isLoading = False, error = None, isAuthenticated = True,
      user = Some \<lparr>access_token = ''tok''\<rparr>\<rparr>"

section \<open>JSON as the platform writes and reads it\<close>

text \<open>
  \<open>JSON.stringify\<close> and \<open>JSON.parse\<close> belong to the platform; the store code calls
  them, so the model has them as ECMAScript defines them, on the values below.
  \<open>JNum n\<close> stands for the number \<open>n\<close>, which a JavaScript number holds exactly when
  \<open>n\<close> lies within \<open>max_safe_integer\<close> of zero; \<open>NaN\<close> has a constructor of its own,
  numbers with a fraction and the infinities have none. An object is the list of its
  properties in the order in which they are enumerated.
\<close>

datatype jsvalue =
    JUndefined
  | JNull
  | JBool bool
  | JNum int
  | JNaN
  | JStr string
  | JArr "jsvalue list"
  | JObj "(string \<times> jsvalue) list"

text \<open>
  The result of reading a text: a value, a thrown error, or \<open>Outside\<close> when the text
  leaves the part of JSON that the model has values for (from that point on the model
  says nothing about what \<open>JSON.parse\<close> does).
\<close>

datatype 'a parsed = Parsed 'a | Throws js_error | Outside











text \<open>
  \<open>JSON.parse\<close>, by recursive descent. White space may stand before and after every
  token. A number is an optional minus sign and decimal digits without a leading zero;
  a fraction or an exponent after them, negative zero and an integer beyond
  \<open>max_safe_integer\<close> are outside the model.
\<close>

definition is_ws :: "char \<Rightarrow> bool" where
  "is_ws c \<longleftrightarrow> c = CHR 0x20 \<or> c = CHR 0x09 \<or> c = CHR 0x0A \<or> c = CHR 0x0D"

definition skip_ws :: "string \<Rightarrow> string" where
  "skip_ws s = dropWhile is_ws s"

definition is_digit :: "char \<Rightarrow> bool" where
  "is_digit c \<longleftrightarrow> 48 \<le> (of_char c :: nat) \<and> (of_char c :: nat) \<le> 57"

definition read_digits :: "string \<Rightarrow> int" where
  "read_digits ds = foldl (\<lambda>a c. 10 * a + (of_char c - 48)) 0 ds"

definition max_safe_integer :: int where
  "max_safe_integer = 9007199254740991"

definition parse_number :: "string \<Rightarrow> (jsvalue \<times> string) parsed" where
  "parse_number s =
     (let neg = (case s of [] \<Rightarrow> False | c # t \<Rightarrow> c = CHR ''-'');
          s1 = (if neg then tl s else s);
          ds = takeWhile is_digit s1;
          r = dropWhile is_digit s1
      in if ds = [] then Throws SyntaxError
         else if hd ds = CHR ''0'' \<and> 1 < length ds then Throws SyntaxError
         else if (case r of [] \<Rightarrow> False | c # t \<Rightarrow> c = CHR ''.'' \<or> c = CHR ''e'' \<or> c = CHR ''E'')
           then Outside
         else if max_safe_integer < read_digits ds \<or> (neg \<and> read_digits ds = 0) then Outside
         else Parsed (JNum (if neg then - read_digits ds else read_digits ds), r))"

text \<open>
  The characters of a string after its opening quote, up to the closing quote. A
  backslash starts an escape; a code unit below U+0020 must not occur unescaped. An
  escape by the letter u and four hexadecimal digits that names a code unit from
  U+0100 on is outside the model.
\<close>

definition hex_val :: "char \<Rightarrow> nat option" where
  "hex_val c =
     (let n = (of_char c :: nat)
      in if 48 \<le> n \<and> n \<le> 57 then Some (n - 48)
         else if 97 \<le> n \<and> n \<le> 102 then Some (n - 87)
         else if 65 \<le> n \<and> n \<le> 70 then Some (n - 55)
         else None)"

definition unescape :: "char \<Rightarrow> char option" where
  "unescape e =
     (if e = CHR 0x22 then Some (CHR 0x22)
      else if e = CHR 0x5C then Some (CHR 0x5C)
      else if e = CHR ''/'' then Some (CHR ''/'')
      else if e = CHR ''b'' then Some (CHR 0x08)
      else if e = CHR ''f'' then Some (CHR 0x0C)
      else if e = CHR ''n'' then Some (CHR 0x0A)
      else if e = CHR ''r'' then Some (CHR 0x0D)
      else if e = CHR ''t'' then Some (CHR 0x09)
      else None)"

definition with_char :: "char \<Rightarrow> (string \<times> string) parsed \<Rightarrow> (string \<times> string) parsed" where
  "with_char c p = (case p of Parsed (t, r) \<Rightarrow> Parsed (c # t, r) | Throws e \<Rightarrow> Throws e | Outside \<Rightarrow> Outside)"

fun parse_chars :: "string \<Rightarrow> (string \<times> string) parsed" where
  "parse_chars [] = Throws SyntaxError"
| "parse_chars (c # s) =
     (if c = CHR 0x22 then Parsed ([], s)
      else if c = CHR 0x5C then
        (case s of
           [] \<Rightarrow> Throws SyntaxError
         | e # s' \<Rightarrow>
             (if e = CHR ''u'' then
                (case s' of
                   h1 # h2 # h3 # h4 # s'' \<Rightarrow>
                     (case (hex_val h1, hex_val h2, hex_val h3, hex_val h4) of
                        (Some a, Some b, Some c', Some d) \<Rightarrow>
                          (if ((a * 16 + b) * 16 + c') * 16 + d < 256
                           then with_char (char_of (((a * 16 + b) * 16 + c') * 16 + d))
                                  (parse_chars s'')
                           else Outside)
                      | _ \<Rightarrow> Throws SyntaxError)
                 | _ \<Rightarrow> Throws SyntaxError)
              else (case unescape e of
                      Some ch \<Rightarrow> with_char ch (parse_chars s')
                    | None \<Rightarrow> Throws SyntaxError)))
      else if (of_char c :: nat) < 32 then Throws SyntaxError
      else with_char c (parse_chars s))"

text \<open>
  An object is built from the members in the order of the text: a key that occurs again
  replaces the value and keeps the place of its first occurrence. JavaScript enumerates
  keys that are array indices before the others, whatever their place in the text; a
  text with such a key is outside the model.
\<close>

definition index_like :: "string \<Rightarrow> bool" where
  "index_like k \<longleftrightarrow> k \<noteq> [] \<and> list_all is_digit k \<and> (k = ''0'' \<or> hd k \<noteq> CHR ''0'')"

definition put_property :: "string \<times> jsvalue \<Rightarrow> (string \<times> jsvalue) list \<Rightarrow> (string \<times> jsvalue) list" where
  "put_property kv kvs =
     (if fst kv \<in> fst ` set kvs
      then map (\<lambda>kv'. if fst kv' = fst kv then kv else kv') kvs
      else kvs @ [kv])"

definition build_object :: "(string \<times> jsvalue) list \<Rightarrow> jsvalue parsed" where
  "build_object kvs =
     (if list_ex (\<lambda>kv. index_like (fst kv)) kvs then Outside
      else Parsed (JObj (fold put_property kvs [])))"

definition literal :: "string \<Rightarrow> jsvalue \<Rightarrow> string \<Rightarrow> (jsvalue \<times> string) parsed" where
  "literal word v s =
     (if prefix word s then Parsed (v, drop (length word) s) else Throws SyntaxError)"

text \<open>
  The three parsers of values, of the elements of a non-empty array up to its closing
  bracket, and of the members of a non-empty object up to its closing brace. Each
  returns what it read and the rest of the text. A value always takes at least one
  character; the two tests on the length of the rest state this where the recursion
  needs it, and never fail.
\<close>

function parse_value :: "string \<Rightarrow> (jsvalue \<times> string) parsed"
  and parse_elems :: "string \<Rightarrow> (jsvalue list \<times> string) parsed"
  and parse_members :: "string \<Rightarrow> ((string \<times> jsvalue) list \<times> string) parsed"
where
  "parse_value s =
     (case skip_ws s of
        [] \<Rightarrow> Throws SyntaxError
      | c # t \<Rightarrow>
          (if c = CHR ''n'' then literal ''null'' JNull (c # t)
           else if c = CHR ''t'' then literal ''true'' (JBool True) (c # t)
           else if c = CHR ''f'' then literal ''false'' (JBool False) (c # t)
           else if c = CHR 0x22 then
             (case parse_chars t of
                Parsed (str, r) \<Rightarrow> Parsed (JStr str, r)
              | Throws e \<Rightarrow> Throws e
              | Outside \<Rightarrow> Outside)
           else if c = CHR ''-'' \<or> is_digit c then parse_number (c # t)
           else if c = CHR ''['' then
             (case skip_ws t of
                [] \<Rightarrow> Throws SyntaxError
              | c' # r \<Rightarrow>
                  (if c' = CHR '']'' then Parsed (JArr [], r)
                   else (case parse_elems t of
                           Parsed (vs, r') \<Rightarrow> Parsed (JArr vs, r')
                         | Throws e \<Rightarrow> Throws e
                         | Outside \<Rightarrow> Outside)))
           else if c = CHR ''{'' then
             (case skip_ws t of
                [] \<Rightarrow> Throws SyntaxError
              | c' # r \<Rightarrow>
                  (if c' = CHR ''}'' then Parsed (JObj [], r)
                   else (case parse_members t of
                           Parsed (kvs, r') \<Rightarrow>
                             (case build_object kvs of
                                Parsed obj \<Rightarrow> Parsed (obj, r')
                              | Throws e \<Rightarrow> Throws e
                              | Outside \<Rightarrow> Outside)
                         | Throws e \<Rightarrow> Throws e
                         | Outside \<Rightarrow> Outside)))
           else Throws SyntaxError))"
| "parse_elems s =
     (case parse_value s of
        Parsed (v, r) \<Rightarrow>
          (if length r < length s then
             (case skip_ws r of
                [] \<Rightarrow> Throws SyntaxError
              | c # r' \<Rightarrow>
                  (if c = CHR '','' then
                     (case parse_elems r' of
                        Parsed (vs, r'') \<Rightarrow> Parsed (v # vs, r'')
                      | Throws e \<Rightarrow> Throws e
                      | Outside \<Rightarrow> Outside)
                   else if c = CHR '']'' then Parsed ([v], r')
                   else Throws SyntaxError))
           else Throws SyntaxError)
      | Throws e \<Rightarrow> Throws e
      | Outside \<Rightarrow> Outside)"
| "parse_members s =
     (case skip_ws s of
        [] \<Rightarrow> Throws SyntaxError
      | q # t \<Rightarrow>
          (if q \<noteq> CHR 0x22 then Throws SyntaxError
           else (case parse_chars t of
                   Parsed (k, r0) \<Rightarrow>
                     (case skip_ws r0 of
                        [] \<Rightarrow> Throws SyntaxError
                      | colon # r1 \<Rightarrow>
                          (if colon \<noteq> CHR '':'' \<or> \<not> length r1 < length s then Throws SyntaxError
                           else (case parse_value r1 of
                                   Parsed (v, r) \<Rightarrow>
                                     (if length r < length r1 then
                                        (case skip_ws r of
                                           [] \<Rightarrow> Throws SyntaxError
                                         | c # r' \<Rightarrow>
                                             (if c = CHR '','' then
                                                (case parse_members r' of
                                                   Parsed (kvs, r'') \<Rightarrow> Parsed ((k, v) # kvs, r'')
                                                 | Throws e \<Rightarrow> Throws e
                                                 | Outside \<Rightarrow> Outside)
                                              else if c = CHR ''}'' then Parsed ([(k, v)], r')
                                              else Throws SyntaxError))
                                      else Throws SyntaxError)
                                 | Throws e \<Rightarrow> Throws e
                                 | Outside \<Rightarrow> Outside)))
                 | Throws e \<Rightarrow> Throws e
                 | Outside \<Rightarrow> Outside)))"
  by pat_completeness auto
termination
proof (relation "measures [\<lambda>x. case x of Inl s \<Rightarrow> length s | Inr (Inl s) \<Rightarrow> length s | Inr (Inr s) \<Rightarrow> length s,
                            \<lambda>x. case x of Inl s \<Rightarrow> 0 | Inr (Inl s) \<Rightarrow> 1 | Inr (Inr s) \<Rightarrow> 1]",
       goal_cases)
  case 1
  show ?case by simp
next
  case (2 s c t)
  then show ?case using length_dropWhile_le [of is_ws s] by (simp add: skip_ws_def)
next
  case (3 s c t)
  then show ?case using length_dropWhile_le [of is_ws s] by (simp add: skip_ws_def)
next
  case (4 s)
  then show ?case by simp
next
  case (5 s x v r c r')
  then show ?case using length_dropWhile_le [of is_ws r] by (simp add: skip_ws_def)
next
  case (6 s q t x k r0 colon r1)
  then show ?case by simp
next
  case (7 s q t x k r0 colon r1 y v r c r')
  then show ?case using length_dropWhile_le [of is_ws r] by (simp add: skip_ws_def)
qed

declare parse_value.simps [simp del] parse_elems.simps [simp del] parse_members.simps [simp del]




section \<open>Persisting the users store\<close>











section \<open>Facts about the string helpers\<close>

lemma includes_iff_sublist: "includes_str s t \<longleftrightarrow> sublist t s"
proof (induction s)
  case Nil
  show ?case by simp
next
  case (Cons c s)
  show ?case by (simp add: Cons.IH sublist_Cons_right)
qed

lemma includes_empty_term: "includes_str s []"
  by (cases s) simp_all

lemma lower_case_norwegian:
  "toLocaleLowerCase [char_of (197 :: nat), char_of (216 :: nat), char_of (198 :: nat)]
   = [char_of (229 :: nat), char_of (248 :: nat), char_of (230 :: nat)]"
  by code_simp

section \<open>The derived store \<open>filteredUsers\<close>\<close>

lemma filteredUsers_lowercase_term:
  assumes "users s = Some us" and "toLocaleLowerCase (term_store s) = term_store s"
  shows "filteredUsers s = Inr (filteredUsers_spec (term_store s) us (truthy (showInactive s)))"
proof -
  have "filter (\<lambda>user. includes_str (toLocaleLowerCase (first_name user)) (term_store s)
                      \<or> includes_str (toLocaleLowerCase (last_name user)) (term_store s))
          (filter (\<lambda>user. if truthy (showInactive s) then True else active user) us)
        = filteredUsers_spec (term_store s) us (truthy (showInactive s))"
    unfolding filteredUsers_spec_def contains_ci_def assms(2)
    by (simp add: conj_commute) (rule filter_cong, auto)
  then show ?thesis
    by (simp add: filteredUsers_def assms(1))
qed

text \<open>
  Claim C1. The derived store is claimed to keep exactly the users that are active (or
  \<open>showInactive\<close> is set) and whose first or last name contains the search term as a
  case-insensitive substring. The code lower-cases the names but not the term: with the
  term \<open>A\<close> and the active users Anna Berg and Bob Dahl, the store is empty, while the
  case-insensitive filter keeps both (\<open>Anna\<close> and \<open>Dahl\<close> hold an \<open>a\<close>).
\<close>

theorem filteredUsers_uppercase_term:
  "filteredUsers (sample_stores ''A'' None) = Inr []
   \<and> filteredUsers_spec ''A'' [anna, bob] False = [anna, bob]"
  by code_simp

text \<open>
  Claim C8. The value of \<open>filteredUsers\<close> depends only on the users list, the search
  term and the \<open>showInactive\<close> flag: two states of the stores that agree on these three
  give the same derived value, whatever \<open>filterOnPunishments\<close> (and \<open>showPaid\<close>) hold.
\<close>

theorem filteredUsers_independent_of_punishment_filter:
  assumes "term_store s1 = term_store s2"
    and "users s1 = users s2"
    and "showInactive s1 = showInactive s2"
  shows "filteredUsers s1 = filteredUsers s2"
  unfolding filteredUsers_def assms ..

theorem filteredUsers_independent_of_punishment_filter_witness:
  "filteredUsers (sample_stores ''an'' None)
   = filteredUsers
       (sample_stores ''an'' (Some [vin]))"
  by (rule filteredUsers_independent_of_punishment_filter) (simp_all add: sample_stores_def)

section \<open>The JSON round trip\<close>

lemma length_skip_ws: "length (skip_ws s) \<le> length s"
  by (simp add: skip_ws_def length_dropWhile_le)











































section \<open>The parsers consume what they read\<close>

text \<open>
  Whatever a parser returns, the rest is shorter than the text it was given. So the
  tests on the length of the rest in \<open>parse_elems\<close> and \<open>parse_members\<close> hold
  whenever they are reached (the last two lemmas), and the parsers are the plain
  recursive-descent ones.
\<close>

lemma with_char_consumes:
  "with_char c p = Parsed (t, r) \<Longrightarrow> \<exists>t'. p = Parsed (t', r)"
  by (cases p) (auto simp: with_char_def)

lemma parse_chars_consumes:
  "parse_chars s = Parsed (t, r) \<Longrightarrow> length r < length s"
proof (induction "length s" arbitrary: s t r rule: less_induct)
  case less
  have step: "length r < length s1"
    if "with_char c1 (parse_chars s1) = Parsed (t, r)" and "length s1 < length s" for s1 c1
  proof -
    from with_char_consumes [OF that(1)] obtain t' where "parse_chars s1 = Parsed (t', r)" ..
    then show ?thesis by (rule less.hyps [OF that(2)])
  qed
  show ?case
  proof (cases s)
    case Nil
    with less.prems show ?thesis by simp
  next
    case (Cons c s0)
    with less.prems show ?thesis
      by (fastforce split: if_splits list.splits option.splits dest: step)
  qed
qed

lemma literal_consumes:
  "literal w v s = Parsed (x, r) \<Longrightarrow> w \<noteq> [] \<Longrightarrow> length r < length s"
  by (auto simp: literal_def prefix_def split: if_splits)

lemma parse_number_consumes:
  "parse_number s = Parsed (x, r) \<Longrightarrow> length r < length s"
proof -
  assume a: "parse_number s = Parsed (x, r)"
  let ?neg = "case s of [] \<Rightarrow> False | c # t \<Rightarrow> c = CHR ''-''"
  let ?s1 = "if ?neg then tl s else s"
  from a have r: "r = dropWhile is_digit ?s1" and ds: "takeWhile is_digit ?s1 \<noteq> []"
    by (auto simp: parse_number_def Let_def split: if_splits)
  have "length (takeWhile is_digit ?s1) + length (dropWhile is_digit ?s1) = length ?s1"
    by (metis length_append takeWhile_dropWhile_id)
  with ds have "length r < length ?s1" unfolding r by (cases "takeWhile is_digit ?s1") auto
  moreover have "length ?s1 \<le> length s" by simp
  ultimately show ?thesis by simp
qed

lemma skip_ws_shorter: "skip_ws s = c # t \<Longrightarrow> length t < length s"
  using length_skip_ws [of s] by simp

lemma parse_consumes_all:
  "(\<forall>v r. parse_value s = Parsed (v, r) \<longrightarrow> length r < length s)
   \<and> (\<forall>vs r. parse_elems s = Parsed (vs, r) \<longrightarrow> length r < length s)
   \<and> (\<forall>kvs r. parse_members s = Parsed (kvs, r) \<longrightarrow> length r < length s)"
proof (induction "length s" arbitrary: s rule: less_induct)
  case less
  have elems: "length r < length s"
    if "length t < length s" and "parse_elems t = Parsed (vs, r)" for t vs r
    using less.hyps [OF that(1)] that by force
  have members: "length r < length s"
    if "length t < length s" and "parse_members t = Parsed (kvs, r)" for t kvs r
    using less.hyps [OF that(1)] that by force
  have "length r < length s" if p: "parse_value s = Parsed (v, r)" for v r
  proof -
    from p obtain c t where sk: "skip_ws s = c # t"
      by (simp only: parse_value.simps [of s]) (auto split: list.splits)
    note len = skip_ws_shorter [OF sk]
    from p sk consider
        (lit) w x where "literal w x (c # t) = Parsed (v, r)" "w \<noteq> []"
      | (str) str where "parse_chars t = Parsed (str, r)"
      | (num) "parse_number (c # t) = Parsed (v, r)"
      | (empty) c' where "skip_ws t = c' # r"
      | (arr) vs where "parse_elems t = Parsed (vs, r)"
      | (obj) kvs where "parse_members t = Parsed (kvs, r)"
      by (simp only: parse_value.simps [of s])
        (auto split: if_splits list.splits parsed.splits prod.splits)
    then show ?thesis
    proof cases
      case lit
      then have "length r < length (c # t)" by (rule literal_consumes)
      then show ?thesis using length_skip_ws [of s] sk by simp
    next
      case str
      then show ?thesis using parse_chars_consumes [of t str r] len by simp
    next
      case num
      then have "length r < length (c # t)" by (rule parse_number_consumes)
      then show ?thesis using length_skip_ws [of s] sk by simp
    next
      case empty
      then show ?thesis using skip_ws_shorter [OF empty] len by simp
    next
      case arr
      then show ?thesis using elems [OF len] by simp
    next
      case obj
      then show ?thesis using members [OF len] by simp
    qed
  qed
  moreover have "length r < length s" if p: "parse_elems s = Parsed (vs, r)" for vs r
  proof -
    have rest: "length r' < length s"
      if "parse_elems t = Parsed (ws, r')" and "length t < length s" for t ws r'
      using elems that by blast
    from p show ?thesis
      by (simp only: parse_elems.simps [of s])
        (auto split: if_splits list.splits parsed.splits prod.splits
              dest!: skip_ws_shorter dest: rest)
  qed
  moreover have "length r < length s" if p: "parse_members s = Parsed (kvs, r)" for kvs r
  proof -
    have rest: "length r' < length s"
      if "parse_members t = Parsed (ws, r')" and "length t < length s" for t ws r'
      using members that by blast
    from p show ?thesis
      by (simp only: parse_members.simps [of s])
        (auto split: if_splits list.splits parsed.splits prod.splits
              dest!: skip_ws_shorter dest: rest)
  qed
  ultimately show ?case by blast
qed

lemma parse_value_consumes: "parse_value s = Parsed (v, r) \<Longrightarrow> length r < length s"
  using parse_consumes_all [of s] by blast

lemma member_value_starts_later:
  assumes "skip_ws s = q # t" and "parse_chars t = Parsed (k, r0)" and "skip_ws r0 = colon # r1"
  shows "length r1 < length s"
  using skip_ws_shorter [OF assms(1)] parse_chars_consumes [OF assms(2)]
    skip_ws_shorter [OF assms(3)]
  by simp

section \<open>The users store and \<open>localStorage\<close>\<close>












section \<open>Sorting with a comparison function\<close>

lemma mset_insert_sorted: "mset (insert_sorted cmp x xs) = add_mset x (mset xs)"
  by (induction xs) simp_all

lemma mset_array_sort: "mset (array_sort cmp xs) = mset xs"
  by (induction xs) (simp_all add: array_sort_def mset_insert_sorted)

lemma set_insert_sorted: "set (insert_sorted cmp x xs) = insert x (set xs)"
  by (induction xs) auto

lemma consistent_total:
  assumes "consistent_comparator cmp" and "\<not> cmp a b \<le> 0"
  shows "cmp b a \<le> 0"
proof -
  from assms(2) have "0 < cmp a b" by simp
  with assms(1) have "cmp b a < 0" by (simp add: consistent_comparator_def)
  then show ?thesis by simp
qed

lemma consistent_trans:
  assumes "consistent_comparator cmp" and "cmp a b \<le> 0" and "cmp b c \<le> 0"
  shows "cmp a c \<le> 0"
  using assms unfolding consistent_comparator_def by blast

lemma consistent_zero_sym:
  assumes "consistent_comparator cmp" and "cmp a b = 0"
  shows "cmp b a = 0"
proof -
  from assms have "\<not> cmp b a < 0" "\<not> 0 < cmp b a"
    unfolding consistent_comparator_def by (metis less_irrefl)+
  then show ?thesis by simp
qed

lemma sorted_insert_sorted:
  assumes "consistent_comparator cmp" and "sorted_wrt (\<lambda>a b. cmp a b \<le> 0) xs"
  shows "sorted_wrt (\<lambda>a b. cmp a b \<le> 0) (insert_sorted cmp x xs)"
  using assms(2)
proof (induction xs)
  case Nil
  show ?case by simp
next
  case (Cons y ys)
  show ?case
  proof (cases "cmp x y \<le> 0")
    case True
    have "cmp x z \<le> 0" if "z \<in> set ys" for z
      using Cons.prems that True consistent_trans [OF assms(1)] by auto
    with True Cons.prems show ?thesis by simp
  next
    case False
    then have "cmp y x \<le> 0" by (rule consistent_total [OF assms(1)])
    with False Cons show ?thesis by (auto simp: set_insert_sorted)
  qed
qed

lemma sorted_array_sort:
  assumes "consistent_comparator cmp"
  shows "sorted_wrt (\<lambda>a b. cmp a b \<le> 0) (array_sort cmp xs)"
proof (induction xs)
  case Nil
  show ?case by (simp add: array_sort_def)
next
  case (Cons x xs)
  have "array_sort cmp (x # xs) = insert_sorted cmp x (array_sort cmp xs)"
    by (simp add: array_sort_def)
  with Cons show ?case by (simp add: sorted_insert_sorted [OF assms])
qed

lemma filter_insert_sorted_equal:
  assumes "consistent_comparator cmp" and "cmp k x = 0"
  shows "filter (\<lambda>y. cmp k y = 0) (insert_sorted cmp x xs) = x # filter (\<lambda>y. cmp k y = 0) xs"
proof (induction xs)
  case Nil
  show ?case using assms(2) by simp
next
  case (Cons y ys)
  show ?case
  proof (cases "cmp x y \<le> 0")
    case True
    then show ?thesis using assms(2) by simp
  next
    case False
    have "cmp k y \<noteq> 0"
    proof
      assume "cmp k y = 0"
      moreover have "cmp x k \<le> 0"
        using consistent_zero_sym [OF assms] by simp
      ultimately have "cmp x y \<le> 0"
        using consistent_trans [OF assms(1), of x k y] by simp
      with False show False ..
    qed
    with False Cons show ?thesis by simp
  qed
qed

lemma filter_insert_sorted_other:
  assumes "cmp k x \<noteq> 0"
  shows "filter (\<lambda>y. cmp k y = 0) (insert_sorted cmp x xs) = filter (\<lambda>y. cmp k y = 0) xs"
  using assms by (induction xs) simp_all

lemma stable_array_sort:
  assumes "consistent_comparator cmp"
  shows "filter (\<lambda>y. cmp k y = 0) (array_sort cmp xs) = filter (\<lambda>y. cmp k y = 0) xs"
proof (induction xs)
  case Nil
  show ?case by (simp add: array_sort_def)
next
  case (Cons x xs)
  have unfold: "array_sort cmp (x # xs) = insert_sorted cmp x (array_sort cmp xs)"
    by (simp add: array_sort_def)
  show ?case
  proof (cases "cmp k x = 0")
    case True
    then show ?thesis
      by (simp add: unfold filter_insert_sorted_equal [OF assms] Cons)
  next
    case False
    then show ?thesis
      by (simp add: unfold filter_insert_sorted_other Cons)
  qed
qed

lemma less_precedes:
  assumes "consistent_comparator cmp" and "sorted_wrt (\<lambda>a b. cmp a b \<le> 0) xs"
    and "i < length xs" and "j < length xs" and "cmp (xs ! i) (xs ! j) < 0"
  shows "i < j"
proof (rule ccontr)
  assume "\<not> i < j"
  then consider "j = i" | "j < i" by linarith
  then show False
  proof cases
    case 1
    with assms(1,5) show False unfolding consistent_comparator_def by (metis less_asym)
  next
    case 2
    with assms(2,3) have "cmp (xs ! j) (xs ! i) \<le> 0" by (simp add: sorted_wrt_iff_nth_less)
    moreover from assms(1,5) have "0 < cmp (xs ! j) (xs ! i)"
      unfolding consistent_comparator_def by simp
    ultimately show False by simp
  qed
qed

lemma consistent_compareMembers:
  "consistent_comparator (localeCompare h) \<Longrightarrow> consistent_comparator (compareMembers h)"
  unfolding consistent_comparator_def compareMembers_def by blast

lemma consistent_code_compare: "consistent_comparator code_compare"
  unfolding consistent_comparator_def code_compare_def by auto

section \<open>The leaderboard query's callback\<close>

lemma callback_members:
  "members (snd (onGroupLeaderboardSuccess h grp st))
   = array_sort (compareMembers h) (Group.members grp)"
  by (simp add: onGroupLeaderboardSuccess_def Let_def)

text \<open>
  Claim C4, as stated. The members state is claimed to hold the sorted member list with
  \<open>x\<close> before \<open>y\<close> exactly when the string of \<open>x\<close> is less than the string of \<open>y\<close>
  under \<open>localeCompare\<close>. Two different members of the same name refute the "exactly
  when": one of them comes first, and its string is not less than the other's (a string
  compares equal to itself in every collation).
\<close>

theorem equal_names_counterexample:
  "members (snd (onGroupLeaderboardSuccess sample_helpers (group_with [kari1, kari2])
                   initial_state)) = [kari1, kari2]
   \<and> kari1 \<noteq> kari2
   \<and> \<not> localeCompare sample_helpers (fullName kari1) (fullName kari2) < 0"
  by code_simp

text \<open>
  Claim C4, amended. When the leaderboard query resolves, the members state holds a
  sorted copy of the group's member list: the same members, each not greater than the
  ones after it under \<open>localeCompare\<close> of "first_name last_name"; a member whose
  string is less than another's comes before it; members whose strings compare equal
  keep the order they were fetched in. The fetched group is left as it was.
\<close>

theorem leaderboard_callback_sorts_a_copy:
  assumes "consistent_comparator (localeCompare h)"
  shows "fst (onGroupLeaderboardSuccess h grp st) = grp
    \<and> mset (members (snd (onGroupLeaderboardSuccess h grp st))) = mset (Group.members grp)
    \<and> sorted_wrt (\<lambda>x y. localeCompare h (fullName x) (fullName y) \<le> 0)
         (members (snd (onGroupLeaderboardSuccess h grp st)))
    \<and> (\<forall>i j. i < length (Group.members grp) \<and> j < length (Group.members grp)
            \<and> localeCompare h
                 (fullName (members (snd (onGroupLeaderboardSuccess h grp st)) ! i))
                 (fullName (members (snd (onGroupLeaderboardSuccess h grp st)) ! j)) < 0
          \<longrightarrow> i < j)
    \<and> (\<forall>x. filter (\<lambda>y. localeCompare h (fullName x) (fullName y) = 0)
               (members (snd (onGroupLeaderboardSuccess h grp st)))
           = filter (\<lambda>y. localeCompare h (fullName x) (fullName y) = 0) (Group.members grp))"
proof -
  let ?ms = "members (snd (onGroupLeaderboardSuccess h grp st))"
  note c = consistent_compareMembers [OF assms]
  have ms: "?ms = array_sort (compareMembers h) (Group.members grp)"
    by (rule callback_members)
  have "fst (onGroupLeaderboardSuccess h grp st) = grp"
    by (simp add: onGroupLeaderboardSuccess_def Let_def)
  moreover have perm: "mset ?ms = mset (Group.members grp)"
    by (simp add: ms mset_array_sort)
  moreover have sorted: "sorted_wrt (\<lambda>x y. compareMembers h x y \<le> 0) ?ms"
    unfolding ms by (rule sorted_array_sort [OF c])
  moreover have "i < j"
    if "i < length (Group.members grp)" "j < length (Group.members grp)"
      "compareMembers h (?ms ! i) (?ms ! j) < 0" for i j
  proof -
    have "length ?ms = length (Group.members grp)"
      using perm by (rule mset_eq_length)
    with that show ?thesis
      using less_precedes [OF c sorted, of i j] by simp
  qed
  moreover have "filter (\<lambda>y. compareMembers h x y = 0) ?ms
      = filter (\<lambda>y. compareMembers h x y = 0) (Group.members grp)" for x
    unfolding ms by (rule stable_array_sort [OF c])
  ultimately show ?thesis
    unfolding compareMembers_def by blast
qed

theorem leaderboard_callback_sorts_a_copy_witness:
  "consistent_comparator (localeCompare sample_helpers)
   \<and> members (snd (onGroupLeaderboardSuccess sample_helpers
                     (group_with [kari1, bob, kari2, anna]) initial_state))
     = [anna, bob, kari1, kari2]"
proof -
  have c: "consistent_comparator (localeCompare sample_helpers)"
    by (simp add: sample_helpers_def consistent_code_compare)
  have "members (snd (onGroupLeaderboardSuccess sample_helpers
                     (group_with [kari1, bob, kari2, anna]) initial_state))
     = [anna, bob, kari1, kari2]"
    by code_simp
  with c leaderboard_callback_sorts_a_copy [OF c, of "group_with [kari1, bob, kari2, anna]" initial_state]
  show ?thesis by simp
qed

section \<open>The three mutations settle\<close>

text \<open>
  Claim C2. For each of the three mutations, when the HTTP request fails nothing of
  the client's state changes but the notification; in particular no query is
  invalidated, and the query data and the member list stay as they were.
\<close>

theorem failed_mutation_changes_only_notification:
  "settle m (Rejected e) st = st\<lparr>notification := notification (settle m (Rejected e) st)\<rparr>
   \<and> invalidated (settle m (Rejected e) st) = invalidated st
   \<and> groupData (settle m (Rejected e) st) = groupData st
   \<and> members (settle m (Rejected e) st) = members st"
  by (simp add: settle_def onError_def)

text \<open>
  Claim C3. For each failing mutation the error handler shows a notification of type
  \<open>error\<close> whose text is the \<open>detail\<close> field of the backend's error payload, and it
  sends no request: the whole failed mutation has sent exactly the one request.
\<close>

theorem failed_mutation_notifies_detail_once:
  "notification (settle m (Rejected e) st)
     = Some \<lparr>n_type = ''error'', n_title = Some (errorTitle m),
             n_text = detail (data (response e))\<rparr>
   \<and> requests (settle m (Rejected e) st) = requests st
   \<and> requests (settle m (Rejected e) (mutate m st)) = requests st @ [mutationFn m st]"
  by (simp add: settle_def onError_def mutate_def)

text \<open>
  Claim C6. For each of the three mutations, when the HTTP request succeeds the
  \<open>groupLeaderboard\<close> query of the selected group is invalidated and a success
  notification is shown; the list of invalidated queries changes on success and only
  on success.
\<close>

theorem invalidation_on_success_only:
  "invalidated (settle m Resolved st)
     = invalidated st
       @ [QueryKey ''groupLeaderboard'' (map_option group_id (selectedGroup st))]
   \<and> notification (settle m Resolved st)
     = Some \<lparr>n_type = ''success'', n_title = None, n_text = successText m\<rparr>
   \<and> ((invalidated (settle m out st) \<noteq> invalidated st) = (out = Resolved))"
  by (cases out) (simp_all add: settle_def onSuccess_def onError_def)

section \<open>Permission gating and confirmation\<close>

lemma rendered_transfer:
  "rendered h st TransferOwnershipClick
   \<longleftrightarrow> (\<exists>gd. groupData st = Some gd
            \<and> hasPermission h (Group.permissions gd) ''group.ownership.transfer''
                 (currentUserRole st))"
  by (cases "groupData st") (simp_all add: rendered_def render_def)

lemma rendered_remove:
  "rendered h st RemoveMemberClick
   \<longleftrightarrow> (\<exists>gd. groupData st = Some gd
            \<and> hasPermission h (Group.permissions gd) ''group.members.remove''
                 (currentUserRole st))"
  by (cases "groupData st") (simp_all add: rendered_def render_def)

text \<open>What the callback, the effects and the handlers leave alone.\<close>

lemma frame_callback:
  "requests (snd (onGroupLeaderboardSuccess h grp st)) = requests st"
  "currentUserRole (snd (onGroupLeaderboardSuccess h grp st)) = currentUserRole st"
  "currentUser (snd (onGroupLeaderboardSuccess h grp st)) = currentUser st"
  "depsGroupData (snd (onGroupLeaderboardSuccess h grp st)) = depsGroupData st"
  "groupData (snd (onGroupLeaderboardSuccess h grp st)) = groupData st"
  by (simp_all add: onGroupLeaderboardSuccess_def Let_def)

lemma frame_effect_selectedPerson:
  "requests (effect_selectedPerson h st) = requests st"
  "currentUserRole (effect_selectedPerson h st) = currentUserRole st"
  "currentUser (effect_selectedPerson h st) = currentUser st"
  "depsGroupData (effect_selectedPerson h st) = depsGroupData st"
  "groupData (effect_selectedPerson h st) = groupData st"
  by (simp_all add: effect_selectedPerson_def Let_def split: option.splits)

lemma frame_effect_currentUserRole:
  "requests (effect_currentUserRole st) = requests st"
  "currentUser (effect_currentUserRole st) = currentUser st"
  "depsGroupData (effect_currentUserRole st) = depsGroupData st"
  "groupData (effect_currentUserRole st) = groupData st"
  by (simp_all add: effect_currentUserRole_def)

lemma role_after_effect:
  "currentUserRole (effect_currentUserRole st) = currentUsersRole (currentUser st) (groupData st)"
  by (simp add: effect_currentUserRole_def currentUsersRole_def)

lemma frame_settle:
  "requests (settle m out st) = requests st"
  "currentUserRole (settle m out st) = currentUserRole st"
  "currentUser (settle m out st) = currentUser st"
  "depsGroupData (settle m out st) = depsGroupData st"
  by (cases out; simp add: settle_def onSuccess_def onError_def)+

lemma frame_handleClick:
  "currentUserRole (handleClick a st) = currentUserRole st"
  "currentUser (handleClick a st) = currentUser st"
  "depsGroupData (handleClick a st) = depsGroupData st"
  by (cases a; simp add: handleClick_def mutate_def)+

lemma frame_confirmModalClose:
  "currentUserRole (confirmModalClose r st) = currentUserRole st"
  "currentUser (confirmModalClose r st) = currentUser st"
  "depsGroupData (confirmModalClose r st) = depsGroupData st"
  by (simp_all add: confirmModalClose_def mutate_def split: option.splits)

lemma requests_runEffects: "requests (runEffects h st) = requests st"
  by (simp add: runEffects_def Let_def frame_effect_selectedPerson
      frame_effect_currentUserRole)

lemma guarded_handleClick:
  "filter guarded_request (requests (handleClick a st)) = filter guarded_request (requests st)"
  by (cases a) (simp_all add: handleClick_def mutate_def mutationFn_def Let_def)

lemma guarded_confirm_cancel:
  "requests (confirmModalClose False st) = requests st"
  by (simp add: confirmModalClose_def split: option.splits)

lemma guarded_step:
  assumes "ev \<noteq> ConfirmClose True"
  shows "filter guarded_request (requests (step h ev st)) = filter guarded_request (requests st)"
proof (cases ev)
  case (QueryResolved grp)
  then show ?thesis by (simp add: step_def frame_callback)
next
  case EffectsRun
  then show ?thesis by (simp add: step_def requests_runEffects)
next
  case (SelectPerson p)
  then show ?thesis by (simp add: step_def)
next
  case (SetRole v)
  then show ?thesis by (simp add: step_def)
next
  case (Click a)
  then show ?thesis by (simp add: step_def guarded_handleClick)
next
  case (ConfirmClose retval)
  with assms have "retval = False" by simp
  with ConfirmClose show ?thesis by (simp add: step_def guarded_confirm_cancel)
next
  case (MutationSettled m out)
  then show ?thesis by (simp add: step_def frame_settle)
qed

lemma guarded_run:
  assumes "ConfirmClose True \<notin> set evs"
  shows "filter guarded_request (requests (run h evs st)) = filter guarded_request (requests st)"
  using assms
proof (induction evs arbitrary: st)
  case Nil
  show ?case by (simp add: run_def)
next
  case (Cons ev evs)
  then have "ev \<noteq> ConfirmClose True" and rest: "ConfirmClose True \<notin> set evs" by auto
  have "run h (ev # evs) st = run h evs (step h ev st)" by (simp add: run_def)
  then show ?case
    using Cons.IH [OF rest, of "step h ev st"] guarded_step [OF \<open>ev \<noteq> ConfirmClose True\<close>]
    by simp
qed

text \<open>
  The role in the state is always the current user's role in the data that the role
  effect last ran with.
\<close>

lemma role_runEffects:
  assumes "currentUserRole st = currentUsersRole (currentUser st) (depsGroupData st)"
  shows "currentUserRole (runEffects h st)
         = currentUsersRole (currentUser (runEffects h st)) (depsGroupData (runEffects h st))"
proof (cases "groupData st = depsGroupData st")
  case True
  then show ?thesis
    using assms by (simp add: runEffects_def Let_def frame_effect_selectedPerson)
next
  case False
  then show ?thesis
    by (simp add: runEffects_def Let_def role_after_effect frame_effect_selectedPerson
        frame_effect_currentUserRole)
qed

lemma role_step:
  assumes "currentUserRole st = currentUsersRole (currentUser st) (depsGroupData st)"
  shows "currentUserRole (step h ev st)
         = currentUsersRole (currentUser (step h ev st)) (depsGroupData (step h ev st))"
proof (cases ev)
  case (QueryResolved grp)
  then show ?thesis using assms by (simp add: step_def frame_callback)
next
  case EffectsRun
  then show ?thesis using role_runEffects [OF assms] by (simp add: step_def)
next
  case (SelectPerson p)
  then show ?thesis using assms by (simp add: step_def)
next
  case (SetRole v)
  then show ?thesis using assms by (simp add: step_def)
next
  case (Click a)
  then show ?thesis using assms by (simp add: step_def frame_handleClick)
next
  case (ConfirmClose retval)
  then show ?thesis using assms by (simp add: step_def frame_confirmModalClose)
next
  case (MutationSettled m out)
  then show ?thesis using assms by (simp add: step_def frame_settle)
qed

lemma role_run:
  assumes "currentUserRole st = currentUsersRole (currentUser st) (depsGroupData st)"
  shows "currentUserRole (run h evs st)
         = currentUsersRole (currentUser (run h evs st)) (depsGroupData (run h evs st))"
  using assms
proof (induction evs arbitrary: st)
  case Nil
  then show ?case by (simp add: run_def)
next
  case (Cons ev evs)
  have "run h (ev # evs) st = run h evs (step h ev st)" by (simp add: run_def)
  then show ?case using Cons.IH [OF role_step [OF Cons.prems]] by simp
qed

lemma role_mounted:
  assumes "mounted st"
  shows "currentUserRole st = currentUsersRole (currentUser st) (depsGroupData st)"
  using assms by (simp add: mounted_def currentUsersRole_def)

text \<open>
  Claim C5, as stated. Each of the two buttons is claimed to be rendered exactly when
  the current user's role has the permission in the group's permission table. The
  component tests the role it holds in its state, which an effect derives from the
  query data after the render. In the render that shows freshly arrived data the state
  still holds the role of the data before: when the modal has just received its first
  data, Anna, the owner, has the permission and the transfer button is not rendered;
  when a refetch brings Anna back as a plain member, the remove button is still
  rendered though her role no longer has the permission.
\<close>

theorem stale_role_render_counterexample:
  "groupData (run sample_helpers [QueryResolved (group_with [bob, anna])] initial_state)
     = Some (group_with [bob, anna])
   \<and> hasPermission sample_helpers (Group.permissions (group_with [bob, anna]))
       ''group.ownership.transfer''
       (currentUsersRole (currentUser initial_state) (Some (group_with [bob, anna])))
   \<and> \<not> rendered sample_helpers
         (run sample_helpers [QueryResolved (group_with [bob, anna])] initial_state)
         TransferOwnershipClick
   \<and> groupData
       (run sample_helpers
          [QueryResolved (group_with [bob, anna]), EffectsRun,
           QueryResolved (group_with [bob, anna_demoted])] initial_state)
     = Some (group_with [bob, anna_demoted])
   \<and> \<not> hasPermission sample_helpers (Group.permissions (group_with [bob, anna_demoted]))
         ''group.members.remove''
         (currentUsersRole (currentUser initial_state) (Some (group_with [bob, anna_demoted])))
   \<and> rendered sample_helpers
       (run sample_helpers
          [QueryResolved (group_with [bob, anna]), EffectsRun,
           QueryResolved (group_with [bob, anna_demoted])] initial_state)
       RemoveMemberClick"
  by code_simp

text \<open>
  Claim C5, amended. In every state the modal reaches after mounting in which the role
  effect has run on the current query data, the transfer-ownership button is rendered
  exactly when the data is there and \<open>hasPermission\<close> grants the current user's role
  (the first permission of the current user's member entry in the loaded group)
  \<open>group.ownership.transfer\<close> in the group's permission table; the remove-member
  button likewise with \<open>group.members.remove\<close>. Neither action sends its request
  before the confirmation dialog resolves affirmatively: over any sequence of events
  without an affirmative answer no transfer or removal request is sent; a click alone
  and a click followed by a negative answer send nothing, a click followed by an
  affirmative answer sends the request of the clicked action.
\<close>

theorem buttons_gated_by_permission_and_confirmation:
  assumes "mounted st0" and "st = run h evs st0" and "depsGroupData st = groupData st"
  shows "(rendered h st TransferOwnershipClick
      \<longleftrightarrow> (\<exists>gd. groupData st = Some gd
               \<and> hasPermission h (Group.permissions gd) ''group.ownership.transfer''
                    (currentUsersRole (currentUser st) (Some gd))))
   \<and> (rendered h st RemoveMemberClick
      \<longleftrightarrow> (\<exists>gd. groupData st = Some gd
               \<and> hasPermission h (Group.permissions gd) ''group.members.remove''
                    (currentUsersRole (currentUser st) (Some gd))))
   \<and> (ConfirmClose True \<notin> set evs'
      \<longrightarrow> filter guarded_request (requests (run h evs' st))
          = filter guarded_request (requests st))
   \<and> requests (handleClick TransferOwnershipClick st) = requests st
   \<and> requests (handleClick RemoveMemberClick st) = requests st
   \<and> requests (confirmModalClose False (handleClick TransferOwnershipClick st)) = requests st
   \<and> requests (confirmModalClose False (handleClick RemoveMemberClick st)) = requests st
   \<and> requests (confirmModalClose True (handleClick TransferOwnershipClick st))
     = requests st @ [mutationFn TransferOwnership st]
   \<and> requests (confirmModalClose True (handleClick RemoveMemberClick st))
     = requests st @ [mutationFn RemoveMember st]"
proof -
  have role: "currentUserRole st = currentUsersRole (currentUser st) (groupData st)"
    using role_run [OF role_mounted [OF assms(1)], of h evs] assms(2,3) by simp
  have transfer: "rendered h st TransferOwnershipClick
      \<longleftrightarrow> (\<exists>gd. groupData st = Some gd
               \<and> hasPermission h (Group.permissions gd) ''group.ownership.transfer''
                    (currentUsersRole (currentUser st) (Some gd)))"
    unfolding rendered_transfer role by auto
  have remove: "rendered h st RemoveMemberClick
      \<longleftrightarrow> (\<exists>gd. groupData st = Some gd
               \<and> hasPermission h (Group.permissions gd) ''group.members.remove''
                    (currentUsersRole (currentUser st) (Some gd)))"
    unfolding rendered_remove role by auto
  have "requests (handleClick TransferOwnershipClick st) = requests st"
    and "requests (handleClick RemoveMemberClick st) = requests st"
    by (simp_all add: handleClick_def)
  moreover have
    "requests (confirmModalClose False (handleClick TransferOwnershipClick st)) = requests st"
    "requests (confirmModalClose False (handleClick RemoveMemberClick st)) = requests st"
    by (simp_all add: handleClick_def confirmModalClose_def)
  moreover have
    "requests (confirmModalClose True (handleClick TransferOwnershipClick st))
       = requests st @ [mutationFn TransferOwnership st]"
    "requests (confirmModalClose True (handleClick RemoveMemberClick st))
       = requests st @ [mutationFn RemoveMember st]"
    by (simp_all add: handleClick_def confirmModalClose_def mutate_def mutationFn_def)
  ultimately show ?thesis
    using transfer remove guarded_run [of evs' h st] by blast
qed

theorem buttons_gated_by_permission_and_confirmation_witness:
  "mounted initial_state
   \<and> depsGroupData
       (run sample_helpers [QueryResolved (group_with [bob, anna]), EffectsRun] initial_state)
     = groupData
       (run sample_helpers [QueryResolved (group_with [bob, anna]), EffectsRun] initial_state)
   \<and> rendered sample_helpers
       (run sample_helpers [QueryResolved (group_with [bob, anna]), EffectsRun] initial_state)
       RemoveMemberClick
   \<and> ConfirmClose True
       \<notin> set [SelectPerson bob, EffectsRun, Click RemoveMemberClick, ConfirmClose False]
   \<and> filter guarded_request
       (requests
          (run sample_helpers
             [SelectPerson bob, EffectsRun, Click RemoveMemberClick, ConfirmClose False]
             (run sample_helpers [QueryResolved (group_with [bob, anna]), EffectsRun]
                initial_state)))
     = filter guarded_request
         (requests
            (run sample_helpers [QueryResolved (group_with [bob, anna]), EffectsRun]
               initial_state))"
proof -
  have m: "mounted initial_state"
    by (simp add: mounted_def initial_state_def)
  have d: "depsGroupData
       (run sample_helpers [QueryResolved (group_with [bob, anna]), EffectsRun] initial_state)
     = groupData
       (run sample_helpers [QueryResolved (group_with [bob, anna]), EffectsRun] initial_state)"
    by code_simp
  have shown: "rendered sample_helpers
       (run sample_helpers [QueryResolved (group_with [bob, anna]), EffectsRun] initial_state)
       RemoveMemberClick"
    by code_simp
  have no_confirm: "ConfirmClose True
       \<notin> set [SelectPerson bob, EffectsRun, Click RemoveMemberClick, ConfirmClose False]"
    by simp
  show ?thesis
    using m d shown no_confirm
      buttons_gated_by_permission_and_confirmation
        [OF m refl d,
         of "[SelectPerson bob, EffectsRun, Click RemoveMemberClick, ConfirmClose False]"]
    by blast
qed

section \<open>The current user as the target\<close>

lemma own_buttons_disabled:
  assumes "isCurrentUserSelected st"
  shows "\<not> clickable h st TransferOwnershipClick \<and> \<not> clickable h st RemoveMemberClick"
  using assms by (cases "groupData st") (simp_all add: clickable_def render_def)

lemma own_buttons_click_ignored:
  assumes "isCurrentUserSelected st" and "a = TransferOwnershipClick \<or> a = RemoveMemberClick"
  shows "step h (Click a) st = st"
  using assms own_buttons_disabled [OF assms(1), of h] by (auto simp: step_def)

lemma immediate_confirmation_spares_current_user:
  assumes "clickable h st a" and "a = TransferOwnershipClick \<or> a = RemoveMemberClick"
    and "selectedPerson st = Some p"
  shows "user_id p \<noteq> user_id (currentUser st)"
    and "requests (confirmModalClose True (handleClick a st))
         = requests st @ [mutationFn (if a = TransferOwnershipClick then TransferOwnership
                                      else RemoveMember) st]"
proof -
  from assms(1,2) own_buttons_disabled [of st h] have "\<not> isCurrentUserSelected st"
    by auto
  with assms(3) show "user_id p \<noteq> user_id (currentUser st)"
    by (simp add: isCurrentUserSelected_def)
  from assms(2)
  show "requests (confirmModalClose True (handleClick a st))
         = requests st @ [mutationFn (if a = TransferOwnershipClick then TransferOwnership
                                      else RemoveMember) st]"
    by (auto simp: handleClick_def confirmModalClose_def mutate_def mutationFn_def)
qed

text \<open>
  Claim C9. While the selected person is the current user, the transfer-ownership and
  the remove-member button are disabled, and a confirmation that follows the click at
  once never targets the current user (the lemmas above). The claim concludes that
  neither mutation can ever be triggered from these buttons with the current user as
  its target. The run below does it. Anna, the current user, selects Bob, clicks
  "remove" and confirms; the removal succeeds and invalidates the leaderboard query.
  Before the refetch has answered, Bob is still selected and the button still enabled:
  Anna clicks "remove" again. While the confirmation dialog is open the refetch
  resolves without Bob, so the callback selects the first member, Anna herself; the
  affirmative answer then sends the removal request for Anna.
\<close>

theorem self_removal_after_refetch:
  "user_id (currentUser initial_state) = ''u1''
   \<and> selectedPerson
       (run sample_helpers
          [QueryResolved (group_with [bob, anna]), EffectsRun, SelectPerson bob, EffectsRun,
           Click RemoveMemberClick, ConfirmClose True,
           MutationSettled RemoveMember Resolved, Click RemoveMemberClick]
          initial_state) = Some bob
   \<and> requests
       (run sample_helpers
          [QueryResolved (group_with [bob, anna]), EffectsRun, SelectPerson bob, EffectsRun,
           Click RemoveMemberClick, ConfirmClose True,
           MutationSettled RemoveMember Resolved, Click RemoveMemberClick,
           QueryResolved (group_with [anna]), EffectsRun, ConfirmClose True]
          initial_state)
     = [Delete (DeleteGroupMemberUrl ''g1'' ''u2''), Delete (DeleteGroupMemberUrl ''g1'' ''u1'')]"
  by code_simp

section \<open>The bearer token\<close>

text \<open>
  Claim C7, as stated. Whenever the auth state is authenticated, the default
  \<open>Authorization\<close> header is claimed to be \<open>Bearer\<close> and the access token. An
  authenticated state that is still loading refutes it: \<open>Layout\<close> returns the loading
  page before it reaches the assignment, and the header stays unset.
\<close>

theorem authenticated_header_counterexample:
  "isAuthenticated loading_auth
   \<and> user loading_auth = Some \<lparr>access_token = ''tok''\<rparr>
   \<and> snd (Layout loading_auth Map.empty) ''Authorization'' = None"
  by (simp add: loading_auth_def Layout_def)

text \<open>
  Claim C7, amended. A render of \<open>Layout\<close> sets the default \<open>Authorization\<close>
  header to \<open>Bearer\<close> followed by the user's access token when the auth state is
  authenticated and the render gets as far as the main page: no silent sign-in or
  sign-out redirect under way, not loading, no error. In every other case, so whenever
  the state is not authenticated, it leaves the headers as they are.
\<close>

theorem bearer_header_when_main_page_reached:
  "snd (Layout auth headers)
   = (if isAuthenticated auth
         \<and> activeNavigator auth \<noteq> Some ''signinSilent''
         \<and> activeNavigator auth \<noteq> Some ''signoutRedirect''
         \<and> \<not> isLoading auth \<and> error auth = None
      then headers(''Authorization'' \<mapsto>
             ''Bearer '' @ (case user auth of None \<Rightarrow> ''undefined''
                            | Some u \<Rightarrow> access_token u))
      else headers)"
  by (simp add: Layout_def)

theorem bearer_header_when_main_page_reached_witness:
  "snd (Layout signed_in_auth Map.empty) ''Authorization'' = Some ''Bearer tok''
   \<and> snd (Layout loading_auth Map.empty) = Map.empty"
  using bearer_header_when_main_page_reached [of signed_in_auth Map.empty]
    bearer_header_when_main_page_reached [of loading_auth Map.empty]
  by (simp add: signed_in_auth_def loading_auth_def)

end
